theory Spec2Isabelle
  imports Complex_Main "HOL-Library.Log_Nat"
begin

section \<open>Data model of \<open>src/chat.ts\<close>\<close>

text \<open>
  The values that travel through \<open>chat\<close>: decoded JSON, and JavaScript values in
  general, which are either \<open>undefined\<close> (\<open>None\<close>) or a JSON value.
\<close>

datatype json =
    JNull
  | JBool bool
  | JNum int
  | JStr string
  | JArr "json list"
  | JObj "(string \<times> json) list"

type_synonym jsval = "json option"

text \<open>
  Errors that leave \<open>chat\<close>: the \<open>Error\<close> objects the source throws, with their
  message, and the \<open>TypeError\<close> of the runtime for a property read on \<open>undefined\<close>,
  with the name of the property read.
\<close>

datatype error = TypeError string | Error string

datatype role = Role_system | Role_user | Role_assistant | Role_function

text \<open>\<open>ChatCompletionRequestMessage\<close>: role, optional name, content.\<close>

record message =
  msg_role :: role
  msg_name :: "string option"
  msg_content :: "string option"

text \<open>An element of \<open>opts.messages\<close>: a bare string or a message.\<close>

datatype item = Text string | Message message

text \<open>
  \<open>ZodSchema\<close>: its \<open>parse\<close> method returns the typed value or throws an error whose
  message is the \<open>Inl\<close> value.
\<close>

datatype ZodSchema = ZodSchema (zod_parse: "json \<Rightarrow> string + jsval")

text \<open>\<open>RegisteredFunctionSchema = ZodSchema | JSONSchema7Type\<close>.\<close>

datatype RegisteredFunctionSchema = Zod ZodSchema | JSONSchema7Type json

text \<open>
  A JavaScript \<open>Function\<close>: its \<open>name\<close> property, its source text (what a template
  literal prints for it), and its effect when called with one argument on the world
  outside the program (type \<open>'w\<close>): it throws (\<open>Inl\<close>) or returns a value.
\<close>

record 'w Function =
  fn_name :: string
  fn_toString :: string
  fn_call :: "jsval \<Rightarrow> 'w \<Rightarrow> (error + jsval) \<times> 'w"

record 'w RegisteredFunctionType =
  name :: string
  fullFunction :: "'w Function"
  schema :: RegisteredFunctionSchema
  jsonSchema :: json

text \<open>
  A JavaScript \<open>Map\<close> object. Its entries live in the internal slot \<open>mapData\<close>, in
  insertion order; \<open>set\<close>, \<open>get\<close> and \<open>delete\<close> work on that slot. Like every object
  it also has own enumerable properties (\<open>ownProps\<close>), which \<open>Object.keys\<close> lists;
  \<open>new Map()\<close> has none, and the methods of \<open>Map\<close> never create one.
\<close>

record 'v JSMap =
  mapData :: "(string \<times> 'v) list"
  ownProps :: "string list"

definition Map_new :: "'v JSMap" where
  "Map_new = \<lparr>mapData = [], ownProps = []\<rparr>"

fun set_entry :: "string \<Rightarrow> 'v \<Rightarrow> (string \<times> 'v) list \<Rightarrow> (string \<times> 'v) list" where
  "set_entry k v [] = [(k, v)]"
| "set_entry k v (p # ps) = (if fst p = k then (k, v) # ps else p # set_entry k v ps)"

fun delete_entry :: "string \<Rightarrow> (string \<times> 'v) list \<Rightarrow> (string \<times> 'v) list" where
  "delete_entry k [] = []"
| "delete_entry k (p # ps) = (if fst p = k then ps else p # delete_entry k ps)"

fun get_entry :: "string \<Rightarrow> (string \<times> 'v) list \<Rightarrow> 'v option" where
  "get_entry k [] = None"
| "get_entry k (p # ps) = (if fst p = k then Some (snd p) else get_entry k ps)"

definition Map_set :: "string \<Rightarrow> 'v \<Rightarrow> 'v JSMap \<Rightarrow> 'v JSMap" where
  "Map_set k v m = m\<lparr>mapData := set_entry k v (mapData m)\<rparr>"

definition Map_delete :: "string \<Rightarrow> 'v JSMap \<Rightarrow> 'v JSMap" where
  "Map_delete k m = m\<lparr>mapData := delete_entry k (mapData m)\<rparr>"

definition Map_get :: "string \<Rightarrow> 'v JSMap \<Rightarrow> 'v option" where
  "Map_get k m = get_entry k (mapData m)"

definition Object_keys :: "'v JSMap \<Rightarrow> string list" where
  "Object_keys m = ownProps m"

text \<open>
  Modelled from the spec: the request and response types of \<open>./api\<close>, which is not
  part of the sources. A request carries the model identifier, the message list, the
  function specs and the optional forced function name; a response exposes a list of
  choices, each with a message that has a role, optional content and an optional
  function-call selection (name and argument text).
\<close>

record function_call =
  fc_name :: string
  fc_arguments :: string

record response_message =
  rm_role :: role
  rm_content :: "string option"
  rm_function_call :: "function_call option"

record choice =
  ch_message :: response_message

record completion =
  choices :: "choice list"

record response =
  data :: completion

record 'w request =
  req_model :: string
  req_messages :: "message list"
  req_functions :: "'w RegisteredFunctionType list"
  req_function_call :: "string option"

record 'w OpenAIApi =
  createChatCompletion :: "'w request \<Rightarrow> 'w \<Rightarrow> (error + response) \<times> 'w"

text \<open>
  What the program uses of the JavaScript runtime and of its libraries, taken as
  parameters: \<open>JSON.parse\<close> (\<open>Inl\<close> is the message of the error it throws),
  \<open>JSON.stringify\<close> (\<open>undefined\<close> for \<open>undefined\<close>), \<open>Math.random\<close> (reads the world)
  and \<open>zodToJsonSchema\<close>.
\<close>

record 'w env =
  JSON_parse :: "string \<Rightarrow> string + json"
  JSON_stringify :: "jsval \<Rightarrow> string option"
  Math_random :: "'w \<Rightarrow> rat \<times> 'w"
  zodToJsonSchema :: "ZodSchema \<Rightarrow> json"

text \<open>The fields of a \<open>SmolAI\<close> instance (the logging sink \<open>log\<close> is left out).\<close>

record 'w SmolAI =
  systemMessage :: string
  model :: string
  aisdk :: "'w OpenAIApi"
  registeredFunctions :: "'w RegisteredFunctionType JSMap"
  retryLimit :: int
  retryDelay :: int
  retryAttempts :: int

text \<open>
  \<open>constructor(aisdk, newSystemMessage)\<close>: the second argument replaces the default
  system message when it is truthy, that is, given and not the empty string.
\<close>

definition SmolAI_new :: "'w OpenAIApi \<Rightarrow> string option \<Rightarrow> 'w SmolAI" where
  "SmolAI_new sdk newSystemMessage =
     \<lparr>systemMessage =
        (case newSystemMessage of
           None \<Rightarrow> ''You are a helpful chatbot. You are helping a user with a task.''
         | Some m \<Rightarrow>
             if m = [] then ''You are a helpful chatbot. You are helping a user with a task.''
             else m),
      model = ''gpt-3.5-turbo-0613'',
      aisdk = sdk,
      registeredFunctions = Map_new,
      retryLimit = 5,
      retryDelay = 200,
      retryAttempts = 0\<rparr>"

section \<open>The function registry\<close>

definition addFunction ::
  "'w env \<Rightarrow> 'w Function \<Rightarrow> RegisteredFunctionSchema \<Rightarrow> 'w SmolAI \<Rightarrow> 'w SmolAI" where
  "addFunction env func sch ai =
     (let js = (case sch of Zod z \<Rightarrow> zodToJsonSchema env z | JSONSchema7Type d \<Rightarrow> d)
      in ai\<lparr>registeredFunctions :=
              Map_set (fn_name func)
                \<lparr>name = fn_name func, fullFunction = func, schema = sch, jsonSchema = js\<rparr>
                (registeredFunctions ai)\<rparr>)"

text \<open>An argument of type \<open>string | Function\<close>.\<close>

datatype 'w func_ref = ByName string | ByFunction "'w Function"

definition deregisterFunction :: "'w func_ref \<Rightarrow> 'w SmolAI \<Rightarrow> 'w SmolAI" where
  "deregisterFunction func ai =
     (case func of
        ByFunction f \<Rightarrow> ai\<lparr>registeredFunctions := Map_delete (fn_name f) (registeredFunctions ai)\<rparr>
      | ByName n \<Rightarrow> ai\<lparr>registeredFunctions := Map_delete n (registeredFunctions ai)\<rparr>)"

definition not_found :: "string \<Rightarrow> error" where
  "not_found func = Error (''smolChat error - function '' @ func @ '' not found. Please report a bug.'')"

definition getFunction :: "'w SmolAI \<Rightarrow> 'w func_ref \<Rightarrow> error + 'w RegisteredFunctionType" where
  "getFunction ai func =
     (case (case func of
              ByFunction f \<Rightarrow> Map_get (fn_name f) (registeredFunctions ai)
            | ByName n \<Rightarrow> Map_get n (registeredFunctions ai)) of
        Some fn \<Rightarrow> Inr fn
      | None \<Rightarrow> Inl (not_found (case func of ByFunction f \<Rightarrow> fn_toString f | ByName n \<Rightarrow> n)))"

text \<open>\<open>Array.prototype.map\<close> with a callback that may throw: the first throw wins.\<close>

fun map_throwing :: "('a \<Rightarrow> error + 'b) \<Rightarrow> 'a list \<Rightarrow> error + 'b list" where
  "map_throwing f [] = Inr []"
| "map_throwing f (x # xs) =
     (case f x of
        Inl e \<Rightarrow> Inl e
      | Inr y \<Rightarrow> (case map_throwing f xs of Inl e \<Rightarrow> Inl e | Inr ys \<Rightarrow> Inr (y # ys)))"

definition listFunctions :: "'w SmolAI \<Rightarrow> error + 'w RegisteredFunctionType list" where
  "listFunctions ai =
     map_throwing (\<lambda>fnName. getFunction ai (ByName fnName)) (Object_keys (registeredFunctions ai))"

section \<open>Numbers\<close>

text \<open>
  A JavaScript number is an IEEE 754 double: a finite value, which is a rational, or an
  infinity, or \<open>NaN\<close>. (The sign of zero is left out: nothing below depends on it.)
\<close>

datatype number = Finite rat | PosInfinity | NegInfinity | NaN

text \<open>
  Rounding a rational to the nearest double, ties to the even significand. For
  \<open>0 < x\<close>, \<open>exponent x\<close> is the \<open>e\<close> with \<open>2\<^sup>e \<le> x < 2\<^sup>e\<^sup>+\<^sup>1\<close>; a double has 53
  significant bits, so the doubles around \<open>x\<close> are the multiples of
  \<open>2\<^sup>e\<^sup>-\<^sup>5\<^sup>2\<close>, and of \<open>2\<^sup>-\<^sup>1\<^sup>0\<^sup>7\<^sup>4\<close> below the normal range; a result of magnitude \<open>2\<^sup>1\<^sup>0\<^sup>2\<^sup>4\<close> or more
  is an infinity.
\<close>

definition exponent :: "rat \<Rightarrow> int" where
  "exponent x = (if 1 \<le> x then bitlen \<lfloor>x\<rfloor> - 1 else - bitlen (\<lceil>1 / x\<rceil> - 1))"

definition round_even :: "rat \<Rightarrow> int" where
  "round_even z =
     (let f = \<lfloor>z\<rfloor>; d = z - of_int f
      in if d < 1 / 2 then f else if 1 / 2 < d then f + 1 else if even f then f else f + 1)"

definition quantum :: "rat \<Rightarrow> rat" where
  "quantum x = 2 powi (max (exponent \<bar>x\<bar>) (- 1022) - 52)"

definition huge :: rat where
  "huge = 2 ^ 1024"

definition round_double :: "rat \<Rightarrow> number" where
  "round_double x =
     (if x = 0 then Finite 0
      else let y = of_int (round_even (x / quantum x)) * quantum x
           in if huge \<le> y then PosInfinity
              else if y \<le> - huge then NegInfinity
              else Finite y)"

text \<open>\<open>Math.floor\<close>, and \<open>+\<close> on numbers.\<close>

fun Math_floor :: "number \<Rightarrow> number" where
  "Math_floor (Finite v) = Finite (of_int \<lfloor>v\<rfloor>)"
| "Math_floor n = n"

fun plus_number :: "number \<Rightarrow> number \<Rightarrow> number" where
  "plus_number (Finite a) (Finite b) = round_double (a + b)"
| "plus_number NaN n = NaN"
| "plus_number n NaN = NaN"
| "plus_number PosInfinity NegInfinity = NaN"
| "plus_number NegInfinity PosInfinity = NaN"
| "plus_number PosInfinity n = PosInfinity"
| "plus_number NegInfinity n = NegInfinity"
| "plus_number n PosInfinity = PosInfinity"
| "plus_number n NegInfinity = NegInfinity"

section \<open>The conversation loop\<close>

text \<open>
  \<open>opts\<close>: \<open>messages\<close> is a reference to the caller's array (an address of the store
  below); \<open>forceFunctionCall\<close> is absent, \<open>null\<close>, a name or a function.
\<close>

datatype 'w force = ForceUndefined | ForceNull | ForceName string | ForceFunction "'w Function"

record 'w opts =
  messages :: nat
  forceFunctionCall :: "'w force"

text \<open>
  The effects of one call, in the order they happen: a request sent to the provider, an
  item pushed onto the array at an address, a registered function called with its
  argument, a timer awaited for a delay.
\<close>

datatype 'w event =
    Sent "'w request"
  | Pushed nat item
  | Called string jsval
  | Waited number

text \<open>
  The state \<open>chat\<close> runs in: the world outside the program, the store of the arrays
  (\<open>opts.messages\<close> is pushed to in place), and the effects so far. The provider and
  the registered functions act on the world only.
\<close>

record 'w state =
  world :: 'w
  arrays :: "nat \<Rightarrow> item list"
  trace :: "'w event list"

definition push :: "nat \<Rightarrow> item \<Rightarrow> 'w state \<Rightarrow> 'w state" where
  "push a x s = s\<lparr>arrays := (arrays s)(a := arrays s a @ [x]), trace := trace s @ [Pushed a x]\<rparr>"

definition coerce :: "item \<Rightarrow> message" where
  "coerce m =
     (case m of
        Text t \<Rightarrow> \<lparr>msg_role = Role_user, msg_name = None, msg_content = Some t\<rparr>
      | Message x \<Rightarrow> x)"

definition forced_name :: "'w force \<Rightarrow> string option" where
  "forced_name f =
     (case f of
        ForceNull \<Rightarrow> None
      | ForceUndefined \<Rightarrow> None
      | ForceName n \<Rightarrow> Some n
      | ForceFunction g \<Rightarrow> Some (fn_name g))"

text \<open>The argument of \<open>createChatCompletion\<close>, lines 85 to 97.\<close>

definition build_request ::
  "'w SmolAI \<Rightarrow> 'w opts \<Rightarrow> 'w RegisteredFunctionType list \<Rightarrow> 'w state \<Rightarrow> 'w request" where
  "build_request ai opts functions s =
     \<lparr>req_model = model ai,
      req_messages =
        \<lparr>msg_role = Role_system, msg_name = None, msg_content = Some (systemMessage ai)\<rparr>
        # map coerce (arrays s (messages opts)),
      req_functions = (case forceFunctionCall opts of ForceNull \<Rightarrow> [] | _ \<Rightarrow> functions),
      req_function_call = forced_name (forceFunctionCall opts)\<rparr>"

text \<open>The body of the \<open>try\<close> block, lines 106 to 112: the arguments or the message of the error thrown.\<close>

definition parse_args :: "'w env \<Rightarrow> 'w RegisteredFunctionType \<Rightarrow> string \<Rightarrow> string + jsval" where
  "parse_args env selectedFunction arguments =
     (case JSON_parse env arguments of
        Inl msg \<Rightarrow> Inl msg
      | Inr js \<Rightarrow>
          (case schema selectedFunction of
             Zod z \<Rightarrow> zod_parse z js
           | JSONSchema7Type d \<Rightarrow> Inr (Some js)))"

text \<open>The message pushed by the \<open>catch\<close> block, lines 115 to 121.\<close>

definition invalid_arguments :: "string \<Rightarrow> item" where
  "invalid_arguments msg =
     Message \<lparr>msg_role = Role_user, msg_name = None,
       msg_content = Some (''Your function call involved invalid arguments.'' @ [CHR 0x0A]
         @ ''            '' @ msg @ [CHR 0x0A]
         @ ''            Please respond only with valid JSON under the provided schema.'' @ [CHR 0x0A]
         @ ''            '')\<rparr>"

text \<open>
  The delay of the timer, lines 147 to 149, for the value \<open>r\<close> that \<open>Math.random()\<close>
  returned: \<open>this.retryAttempts * this.retryDelay + Math.floor(r * 100)\<close>, each
  operation rounded to a double. The two fields hold integers.
\<close>

definition backoff :: "'w SmolAI \<Rightarrow> rat \<Rightarrow> number" where
  "backoff ai r =
     plus_number (round_double (of_int (retryAttempts ai) * of_int (retryDelay ai)))
       (Math_floor (round_double (r * 100)))"

text \<open>
  Lines 133 to 151: the selected function is called with \<open>args\<close>, its result is pushed
  as a function message, and the timer is awaited. The result is the completion and the
  flag \<open>shouldRetry\<close>, or the error the function threw.
\<close>

definition invoke ::
  "'w env \<Rightarrow> 'w SmolAI \<Rightarrow> 'w opts \<Rightarrow> response \<Rightarrow> 'w RegisteredFunctionType \<Rightarrow> jsval \<Rightarrow> bool
   \<Rightarrow> 'w state \<Rightarrow> (error + response \<times> bool) \<times> 'w state" where
  "invoke env ai opts chatCompletion selectedFunction args shouldRetry s =
     (case fn_call (fullFunction selectedFunction) args (world s) of
        (res, w1) \<Rightarrow>
          (let s1 = s\<lparr>world := w1, trace := trace s @ [Called (name selectedFunction) args]\<rparr>
           in case res of
                Inl e \<Rightarrow> (Inl e, s1)
              | Inr results \<Rightarrow>
                  (let s2 = push (messages opts)
                              (Message \<lparr>msg_role = Role_function,
                                        msg_name = Some (name selectedFunction),
                                        msg_content = JSON_stringify env results\<rparr>) s1
                   in case Math_random env (world s2) of
                        (r, w2) \<Rightarrow>
                          (Inr (chatCompletion, shouldRetry),
                           s2\<lparr>world := w2, trace := trace s2 @ [Waited (backoff ai r)]\<rparr>))))"

text \<open>
  One pass through the body of the \<open>do\<close> loop, lines 81 to 151, from the value
  \<open>shouldRetry\<close> has on entry. A descriptor is an object and so truthy: the \<open>else\<close>
  branch of line 124 is never taken, \<open>getFunction\<close> throws instead. After the \<open>catch\<close>
  block \<open>args\<close> is still \<open>undefined\<close> and control goes on to line 133.
\<close>

definition iteration ::
  "'w env \<Rightarrow> 'w SmolAI \<Rightarrow> 'w opts \<Rightarrow> 'w RegisteredFunctionType list \<Rightarrow> bool
   \<Rightarrow> 'w state \<Rightarrow> (error + response \<times> bool) \<times> 'w state" where
  "iteration env ai opts functions shouldRetry s =
     (let req = build_request ai opts functions s
      in case createChatCompletion (aisdk ai) req (world s) of
           (r, w1) \<Rightarrow>
             (let s1 = s\<lparr>world := w1, trace := trace s @ [Sent req]\<rparr>
              in case r of
                   Inl e \<Rightarrow> (Inl e, s1)
                 | Inr chatCompletion \<Rightarrow>
                     (case choices (data chatCompletion) of
                        [] \<Rightarrow> (Inl (TypeError ''message''), s1)
                      | c # cs \<Rightarrow>
                          (case rm_function_call (ch_message c) of
                             None \<Rightarrow> (Inl (TypeError ''name''), s1)
                           | Some fc \<Rightarrow>
                               (case getFunction ai (ByName (fc_name fc)) of
                                  Inl e \<Rightarrow> (Inl e, s1)
                                | Inr selectedFunction \<Rightarrow>
                                    (case parse_args env selectedFunction (fc_arguments fc) of
                                       Inr args \<Rightarrow>
                                         invoke env ai opts chatCompletion selectedFunction args
                                           shouldRetry s1
                                     | Inl msg \<Rightarrow>
                                         invoke env ai opts chatCompletion selectedFunction None
                                           True (push (messages opts) (invalid_arguments msg) s1)))))))"

text \<open>
  The \<open>do ... while (shouldRetry && this.retryAttempts < this.retryLimit)\<close> loop. It
  returns nothing (\<open>None\<close>) when the loop never ends.
\<close>

partial_function (option) chat_loop ::
  "'w env \<Rightarrow> 'w SmolAI \<Rightarrow> 'w opts \<Rightarrow> 'w RegisteredFunctionType list \<Rightarrow> bool
   \<Rightarrow> 'w state \<Rightarrow> ((error + response) \<times> 'w state) option" where
  "chat_loop env ai opts functions shouldRetry s =
     (case iteration env ai opts functions shouldRetry s of
        (Inl e, s') \<Rightarrow> Some (Inl e, s')
      | (Inr (chatCompletion, shouldRetry'), s') \<Rightarrow>
          if shouldRetry' \<and> retryAttempts ai < retryLimit ai
          then chat_loop env ai opts functions shouldRetry' s'
          else Some (Inr chatCompletion, s'))"

declare chat_loop.simps [code]

definition chat ::
  "'w env \<Rightarrow> 'w SmolAI \<Rightarrow> 'w opts \<Rightarrow> 'w state \<Rightarrow> ((error + response) \<times> 'w state) option" where
  "chat env ai opts s =
     (case listFunctions ai of
        Inl e \<Rightarrow> Some (Inl e, s)
      | Inr functions \<Rightarrow> chat_loop env ai opts functions False s)"

text \<open>
  The first \<open>n\<close> passes of the loop: the result, when the loop has ended within them,
  and the state reached. A loop that never ends has a state after every number of
  passes.
\<close>

fun passes ::
  "nat \<Rightarrow> 'w env \<Rightarrow> 'w SmolAI \<Rightarrow> 'w opts \<Rightarrow> 'w RegisteredFunctionType list \<Rightarrow> bool
   \<Rightarrow> 'w state \<Rightarrow> (error + response) option \<times> 'w state" where
  "passes 0 env ai opts functions shouldRetry s = (None, s)"
| "passes (Suc n) env ai opts functions shouldRetry s =
     (case iteration env ai opts functions shouldRetry s of
        (Inl e, s') \<Rightarrow> (Some (Inl e), s')
      | (Inr (chatCompletion, shouldRetry'), s') \<Rightarrow>
          if shouldRetry' \<and> retryAttempts ai < retryLimit ai
          then passes n env ai opts functions shouldRetry' s'
          else (Some (Inr chatCompletion), s'))"

section \<open>Sequences of registry operations\<close>

datatype 'w registry_op =
    Register "'w Function" RegisteredFunctionSchema
  | Deregister "'w func_ref"

fun run_ops :: "'w env \<Rightarrow> 'w registry_op list \<Rightarrow> 'w SmolAI \<Rightarrow> 'w SmolAI" where
  "run_ops env [] ai = ai"
| "run_ops env (Register f sch # ops) ai = run_ops env ops (addFunction env f sch ai)"
| "run_ops env (Deregister r # ops) ai = run_ops env ops (deregisterFunction r ai)"

text \<open>The wire schema \<open>addFunction\<close> derives from a schema.\<close>

definition wire :: "'w env \<Rightarrow> RegisteredFunctionSchema \<Rightarrow> json" where
  "wire env sch = (case sch of Zod z \<Rightarrow> zodToJsonSchema env z | JSONSchema7Type d \<Rightarrow> d)"

text \<open>
  A descriptor as \<open>addFunction\<close> builds it from one of the registrations of \<open>ops\<close>,
  stored under key \<open>k\<close>.
\<close>

fun registered_by :: "'w env \<Rightarrow> 'w registry_op list \<Rightarrow> string \<times> 'w RegisteredFunctionType \<Rightarrow> bool" where
  "registered_by env [] p = False"
| "registered_by env (Register f sch # ops) p =
     ((fst p = fn_name f \<and> name (snd p) = fn_name f \<and> fullFunction (snd p) = f
       \<and> schema (snd p) = sch \<and> jsonSchema (snd p) = wire env sch)
      \<or> registered_by env ops p)"
| "registered_by env (Deregister r # ops) p = registered_by env ops p"

section \<open>Reading a trace\<close>

text \<open>The items pushed onto the array at \<open>a\<close>, in order.\<close>

fun pushed :: "nat \<Rightarrow> 'w event list \<Rightarrow> item list" where
  "pushed a [] = []"
| "pushed a (Pushed b x # tr) = (if b = a then x # pushed a tr else pushed a tr)"
| "pushed a (e # tr) = pushed a tr"

text \<open>
  Every request of the trace carries the system message and then the array at \<open>a\<close> as
  it is at that moment, \<open>xs\<close> at the start and every item pushed since: a message as it
  is, a bare string as a user message.
\<close>

fun follows :: "nat \<Rightarrow> string \<Rightarrow> item list \<Rightarrow> 'w event list \<Rightarrow> bool" where
  "follows a sys xs [] = True"
| "follows a sys xs (Sent q # tr) =
     (req_messages q
        = \<lparr>msg_role = Role_system, msg_name = None, msg_content = Some sys\<rparr>
          # map (\<lambda>x. case x of
                        Text t \<Rightarrow> \<lparr>msg_role = Role_user, msg_name = None, msg_content = Some t\<rparr>
                      | Message m \<Rightarrow> m) xs
      \<and> follows a sys xs tr)"
| "follows a sys xs (Pushed b x # tr) = follows a sys (if b = a then xs @ [x] else xs) tr"
| "follows a sys xs (e # tr) = follows a sys xs tr"

text \<open>The message lists of the requests sent, in order.\<close>

fun sent_messages :: "'w event list \<Rightarrow> message list list" where
  "sent_messages [] = []"
| "sent_messages (Sent q # tr) = req_messages q # sent_messages tr"
| "sent_messages (e # tr) = sent_messages tr"

text \<open>The delays of the timers awaited, in order.\<close>

fun waits :: "'w event list \<Rightarrow> number list" where
  "waits [] = []"
| "waits (Waited d # tr) = d # waits tr"
| "waits (e # tr) = waits tr"

text \<open>
  From state \<open>s\<close> to state \<open>s'\<close> the trace has only been extended, the array at \<open>a\<close> has
  received exactly the items the extension pushes onto it, every other array is as it
  was, and every request of the extension follows the array at \<open>a\<close>.
\<close>

definition grows :: "nat \<Rightarrow> string \<Rightarrow> 'w state \<Rightarrow> 'w state \<Rightarrow> bool" where
  "grows a sys s s' =
     (\<exists>tr. trace s' = trace s @ tr
          \<and> arrays s' = (arrays s)(a := arrays s a @ pushed a tr)
          \<and> follows a sys (arrays s a) tr)"

section \<open>A concrete setting\<close>

text \<open>
  The world is the number of answers the provider has given. \<open>getWeather\<close> takes
  \<open>{city: string}\<close> and returns \<open>{tempC: 18}\<close>, whatever it is called with.
\<close>

definition city_schema :: ZodSchema where
  "city_schema =
     ZodSchema (\<lambda>js. case js of
                        JObj kvs \<Rightarrow>
                          (case get_entry ''city'' kvs of
                             Some (JStr c) \<Rightarrow> Inr (Some js)
                           | Some v \<Rightarrow> Inl ''Expected string''
                           | None \<Rightarrow> Inl ''Required'')
                      | _ \<Rightarrow> Inl ''Expected object'')"

definition ex_env :: "nat env" where
  "ex_env =
     \<lparr>JSON_parse = (\<lambda>t. if t = ''{\"city\":\"Paris\"}'' then Inr (JObj [(''city'', JStr ''Paris'')])
                         else if t = ''{\"city\":5}'' then Inr (JObj [(''city'', JNum 5)])
                         else Inl ''Unexpected token''),
      JSON_stringify = (\<lambda>v. case v of
                               None \<Rightarrow> None
                             | Some js \<Rightarrow> if js = JObj [(''tempC'', JNum 18)] then Some ''{\"tempC\":18}''
                                          else Some ''null''),
      Math_random = (\<lambda>w. (1 / 2, w)),
      zodToJsonSchema = (\<lambda>z. JObj [(''type'', JStr ''object'')])\<rparr>"


definition getWeather :: "nat Function" where
  "getWeather =
     \<lparr>fn_name = ''getWeather'', fn_toString = ''function getWeather(args) { ... }'',
      fn_call = (\<lambda>args w. (Inr (Some (JObj [(''tempC'', JNum 18)])), w))\<rparr>"

text \<open>An anonymous function: its \<open>name\<close> is the empty string.\<close>

definition anonymous :: "nat Function" where
  "anonymous =
     \<lparr>fn_name = [], fn_toString = ''() => 1'',
      fn_call = (\<lambda>args w. (Inr (Some (JNum 1)), w))\<rparr>"

text \<open>A provider whose every answer has one choice, with the given function-call selection.\<close>

definition answering :: "function_call option \<Rightarrow> nat OpenAIApi" where
  "answering fc =
     \<lparr>createChatCompletion =
        (\<lambda>req w. (Inr \<lparr>data = \<lparr>choices = [\<lparr>ch_message =
                          \<lparr>rm_role = Role_assistant, rm_content = None, rm_function_call = fc\<rparr>\<rparr>]\<rparr>\<rparr>,
                   Suc w))\<rparr>"

text \<open>
  A provider that answers from a script: its \<open>w\<close>-th answer selects \<open>fcs ! w\<close>, and
  nothing once the script is used up.
\<close>

definition scripted :: "function_call option list \<Rightarrow> nat OpenAIApi" where
  "scripted fcs =
     \<lparr>createChatCompletion =
        (\<lambda>req w. (Inr \<lparr>data = \<lparr>choices = [\<lparr>ch_message =
                          \<lparr>rm_role = Role_assistant, rm_content = None,
                           rm_function_call = (if w < length fcs then fcs ! w else None)\<rparr>\<rparr>]\<rparr>\<rparr>,
                   Suc w))\<rparr>"

definition fc_paris :: "function_call option" where
  "fc_paris = Some \<lparr>fc_name = ''getWeather'', fc_arguments = ''{\"city\":\"Paris\"}''\<rparr>"

definition fc_five :: "function_call option" where
  "fc_five = Some \<lparr>fc_name = ''getWeather'', fc_arguments = ''{\"city\":5}''\<rparr>"

definition fc_garbled :: "function_call option" where
  "fc_garbled = Some \<lparr>fc_name = ''getWeather'', fc_arguments = ''not json''\<rparr>"

definition fc_doThing :: "function_call option" where
  "fc_doThing = Some \<lparr>fc_name = ''doThing'', fc_arguments = ''{}''\<rparr>"

definition ex_opts :: "nat opts" where
  "ex_opts = \<lparr>messages = 0, forceFunctionCall = ForceUndefined\<rparr>"

definition ex_state :: "nat state" where
  "ex_state = \<lparr>world = 0, arrays = (\<lambda>a. if a = 0 then [Text ''weather in Paris?''] else []), trace = []\<rparr>"

text \<open>\<open>getWeather\<close> registered on a new instance, with the structured and with a plain schema.\<close>

definition ex_ai :: "function_call option \<Rightarrow> nat SmolAI" where
  "ex_ai fc = addFunction ex_env getWeather (Zod city_schema) (SmolAI_new (answering fc) None)"

definition ex_ai_plain :: "function_call option \<Rightarrow> nat SmolAI" where
  "ex_ai_plain fc =
     addFunction ex_env getWeather (JSONSchema7Type (JObj [(''type'', JStr ''object'')]))
       (SmolAI_new (answering fc) None)"

definition ex_ai_scripted :: "function_call option list \<Rightarrow> nat SmolAI" where
  "ex_ai_scripted fcs =
     addFunction ex_env getWeather (Zod city_schema) (SmolAI_new (scripted fcs) None)"

text \<open>
  The user message for the question asked, the corrective message for the error text
  \<open>Unexpected token\<close>, what \<open>getWeather\<close> leaves on the array, and the state in which
  \<open>chat\<close> ends from \<open>ex_state\<close> when the provider first selects \<open>getWeather\<close> with text
  that is not JSON and then selects nothing.
\<close>

definition question_message :: message where
  "question_message =
     \<lparr>msg_role = Role_user, msg_name = None, msg_content = Some ''weather in Paris?''\<rparr>"

definition system_message :: message where
  "system_message =
     \<lparr>msg_role = Role_system, msg_name = None,
      msg_content = Some ''You are a helpful chatbot. You are helping a user with a task.''\<rparr>"

definition unexpected_token_message :: message where
  "unexpected_token_message =
     \<lparr>msg_role = Role_user, msg_name = None,
      msg_content = Some (''Your function call involved invalid arguments.'' @ [CHR 0x0A]
        @ ''            Unexpected token'' @ [CHR 0x0A]
        @ ''            Please respond only with valid JSON under the provided schema.'' @ [CHR 0x0A]
        @ ''            '')\<rparr>"

definition tempC_message :: item where
  "tempC_message =
     Message \<lparr>msg_role = Role_function, msg_name = Some ''getWeather'',
              msg_content = Some ''{\"tempC\":18}''\<rparr>"

definition ex_final :: "nat state" where
  "ex_final =
     \<lparr>world = 2,
      arrays = (\<lambda>a. if a = 0
                     then [Text ''weather in Paris?'', Message unexpected_token_message,
                           tempC_message]
                     else []),
      trace =
        [Sent \<lparr>req_model = ''gpt-3.5-turbo-0613'',
               req_messages = [system_message, question_message],
               req_functions = [], req_function_call = None\<rparr>,
         Pushed 0 (Message unexpected_token_message),
         Called ''getWeather'' None,
         Pushed 0 tempC_message,
         Waited (Finite 50),
         Sent \<lparr>req_model = ''gpt-3.5-turbo-0613'',
               req_messages =
                 [system_message, question_message, unexpected_token_message,
                  \<lparr>msg_role = Role_function, msg_name = Some ''getWeather'',
                   msg_content = Some ''{\"tempC\":18}''\<rparr>],
               req_functions = [], req_function_call = None\<rparr>]\<rparr>"

section \<open>Properties\<close>

subsection \<open>Rounding to double precision\<close>

lemma exponent_lower:
  assumes "0 < x"
  shows "2 powi (exponent x) \<le> x"
proof (cases "1 \<le> x")
  case True
  then have f: "0 < \<lfloor>x\<rfloor>" by simp
  have b: "1 \<le> bitlen \<lfloor>x\<rfloor>" using f by (simp add: bitlen_ge_iff_power)
  have "(2::int) ^ nat (bitlen \<lfloor>x\<rfloor> - 1) \<le> \<lfloor>x\<rfloor>"
    using bitlen_bounds [OF f] by simp
  then have "of_int ((2::int) ^ nat (bitlen \<lfloor>x\<rfloor> - 1)) \<le> (of_int \<lfloor>x\<rfloor> :: rat)"
    by (simp only: of_int_le_iff)
  also have "\<dots> \<le> x" by simp
  finally have "(2::rat) ^ nat (bitlen \<lfloor>x\<rfloor> - 1) \<le> x" by simp
  moreover have "(2::rat) powi (bitlen \<lfloor>x\<rfloor> - 1) = 2 ^ nat (bitlen \<lfloor>x\<rfloor> - 1)"
    using b by (simp add: power_int_def)
  ultimately show ?thesis using True by (simp add: exponent_def)
next
  case False
  then have x1: "x < 1" by simp
  let ?c = "\<lceil>1 / x\<rceil>"
  have "1 < 1 / x" using assms x1 by simp
  then have c2: "2 \<le> ?c" by (simp add: le_ceiling_iff)
  then have c1: "0 < ?c - 1" by simp
  let ?k = "bitlen (?c - 1)"
  have k: "0 \<le> ?k" by (rule bitlen_nonneg)
  have "?c - 1 < 2 ^ nat ?k" using bitlen_bounds [OF c1] by simp
  then have "?c \<le> 2 ^ nat ?k" by simp
  then have "(of_int ?c :: rat) \<le> of_int (2 ^ nat ?k)" by (simp only: of_int_le_iff)
  then have "(of_int ?c :: rat) \<le> 2 ^ nat ?k" by simp
  moreover have "1 / x \<le> of_int ?c" by simp
  ultimately have "1 / x \<le> 2 ^ nat ?k" by linarith
  then have "1 \<le> 2 ^ nat ?k * x" using assms by (simp add: field_simps)
  then have "1 / 2 ^ nat ?k \<le> x" by (simp add: field_simps)
  moreover have "(2::rat) powi (- ?k) = 1 / 2 ^ nat ?k"
    using k by (simp add: power_int_def field_simps)
  ultimately show ?thesis using False by (simp add: exponent_def)
qed




lemma round_even_of_int: "round_even (of_int n) = n"
  by (simp add: round_even_def)



lemma round_double_Finite:
  assumes "x \<noteq> 0" and "y = of_int (round_even (x / quantum x)) * quantum x"
    and "y < huge" and "- huge < y"
  shows "round_double x = Finite y"
  using assms by (simp add: round_double_def Let_def)


lemma round_double_exact:
  assumes n: "\<bar>n\<bar> < 2 ^ 53" and k: "- 1074 \<le> k"
    and b: "\<bar>of_int n * 2 powi k\<bar> < huge"
  shows "round_double (of_int n * 2 powi k) = Finite (of_int n * 2 powi k)"
proof (cases "n = 0")
  case True
  then show ?thesis by (simp add: round_double_def)
next
  case False
  let ?x = "of_int n * 2 powi k :: rat"
  have x0: "?x \<noteq> 0" using False by simp
  have ax: "\<bar>?x\<bar> = of_int \<bar>n\<bar> * 2 powi k" by (simp add: abs_mult)
  have pos: "0 < \<bar>?x\<bar>" using x0 by simp
  let ?e = "exponent \<bar>?x\<bar>"
  have "(of_int \<bar>n\<bar> :: rat) < of_int (2 ^ 53)" using n by (simp only: of_int_less_iff)
  then have "(of_int \<bar>n\<bar> :: rat) < 2 powi 53" by simp
  then have "of_int \<bar>n\<bar> * 2 powi k < (2 powi 53 * 2 powi k :: rat)"
    by (simp add: mult_strict_right_mono)
  also have "\<dots> = 2 powi (53 + k)" by (simp add: power_int_add)
  finally have up: "\<bar>?x\<bar> < 2 powi (53 + k)" using ax by simp
  have "\<not> 53 + k \<le> ?e"
  proof
    assume "53 + k \<le> ?e"
    then have "(2::rat) powi (53 + k) \<le> 2 powi ?e"
      by (intro power_int_increasing) simp_all
    with exponent_lower [OF pos] up show False by linarith
  qed
  then have e: "?e - 52 \<le> k" by linarith
  define j where "j = max ?e (- 1022) - 52"
  define q :: rat where "q = 2 powi j"
  define m where "m = n * 2 ^ nat (k - j)"
  have qq: "quantum ?x = q" by (simp add: quantum_def q_def j_def)
  have j: "j \<le> k" using e k by (simp add: j_def)
  have q0: "q \<noteq> 0" by (simp add: q_def)
  have "(2::rat) powi k = 2 powi ((k - j) + j)" by simp
  also have "\<dots> = 2 powi (k - j) * 2 powi j" by (rule power_int_add) simp
  also have "(2::rat) powi (k - j) = 2 ^ nat (k - j)"
    using j by (simp add: power_int_def)
  finally have "(2::rat) powi k = 2 ^ nat (k - j) * q" by (simp add: q_def)
  then have xm: "?x = of_int m * q" by (simp add: m_def)
  then have "?x / q = of_int m" using q0 by simp
  then have "round_even (?x / q) = m" by (simp add: round_even_of_int)
  then have r: "?x = of_int (round_even (?x / quantum ?x)) * quantum ?x"
    using xm qq by simp
  have "?x < huge" "- huge < ?x" using b by linarith+
  from round_double_Finite [OF x0 r this] show ?thesis .
qed

lemma huge_gt: "2 ^ 54 < huge"
  unfolding huge_def by (rule power_strict_increasing) simp_all

lemma round_double_int:
  assumes "\<bar>n\<bar> \<le> 2 ^ 53"
  shows "round_double (of_int n) = Finite (of_int n)"
proof (cases "\<bar>n\<bar> < 2 ^ 53")
  case True
  have "\<bar>of_int n * 2 powi 0\<bar> < huge"
  proof -
    have "(of_int \<bar>n\<bar> :: rat) < of_int (2 ^ 53)" using True by (simp only: of_int_less_iff)
    then have "\<bar>of_int n :: rat\<bar> < 2 ^ 54" by simp
    with huge_gt show ?thesis by simp
  qed
  from round_double_exact [OF True _ this] show ?thesis by simp
next
  case False
  then have "n = 2 ^ 53 \<or> n = - (2 ^ 53)" using assms by linarith
  then obtain m :: int where m: "\<bar>m\<bar> < 2 ^ 53" "n = m * 2" "\<bar>m\<bar> = 2 ^ 52"
    by (auto intro: that [of "2 ^ 52"] that [of "- (2 ^ 52)"])
  have "\<bar>of_int m * 2 powi 1\<bar> < huge"
  proof -
    have "(of_int \<bar>m\<bar> :: rat) = 2 ^ 52" using m(3) by simp
    then have "\<bar>of_int m * 2 powi 1 :: rat\<bar> < 2 ^ 54" by (simp add: abs_mult)
    with huge_gt show ?thesis by simp
  qed
  from round_double_exact [OF m(1) _ this] m(2) show ?thesis by simp
qed





lemma round_double_half_100: "round_double (1 / 2 * 100) = Finite 50"
  using round_double_int [of 50] by simp

lemma backoff_exact:
  assumes "round_double (r * 100) = Finite v"
    and "\<bar>retryAttempts ai * retryDelay ai\<bar> \<le> 2 ^ 53"
    and "\<bar>retryAttempts ai * retryDelay ai + \<lfloor>v\<rfloor>\<bar> \<le> 2 ^ 53"
  shows "backoff ai r = Finite (of_int (retryAttempts ai * retryDelay ai + \<lfloor>v\<rfloor>))"
proof -
  have "round_double (of_int (retryAttempts ai) * of_int (retryDelay ai))
        = Finite (of_int (retryAttempts ai * retryDelay ai))"
    using round_double_int [OF assms(2)] by simp
  moreover have "round_double (of_int (retryAttempts ai * retryDelay ai) + of_int \<lfloor>v\<rfloor>)
        = Finite (of_int (retryAttempts ai * retryDelay ai + \<lfloor>v\<rfloor>))"
    using round_double_int [OF assms(3)] by simp
  ultimately show ?thesis using assms(1) by (simp add: backoff_def)
qed

lemma backoff_half:
  assumes "\<bar>retryAttempts ai * retryDelay ai\<bar> \<le> 2 ^ 53"
    and "\<bar>retryAttempts ai * retryDelay ai + 50\<bar> \<le> 2 ^ 53"
  shows "backoff ai (1 / 2) = Finite (of_int (retryAttempts ai * retryDelay ai + 50))"
  using backoff_exact [OF round_double_half_100, of ai] assms by simp

lemma listFunctions_ex_ai: "listFunctions (ex_ai fc) = Inr []"
  by (simp add: listFunctions_def Object_keys_def ex_ai_def addFunction_def SmolAI_new_def
      Map_new_def Map_set_def Let_def)

lemma listFunctions_ex_ai_plain: "listFunctions (ex_ai_plain fc) = Inr []"
  by (simp add: listFunctions_def Object_keys_def ex_ai_plain_def addFunction_def SmolAI_new_def
      Map_new_def Map_set_def Let_def)

lemma listFunctions_ex_ai_scripted: "listFunctions (ex_ai_scripted fcs) = Inr []"
  by (simp add: listFunctions_def Object_keys_def ex_ai_scripted_def addFunction_def
      SmolAI_new_def Map_new_def Map_set_def Let_def)

subsection \<open>A function name that is not registered\<close>

text \<open>
  Claim C5. When the first response of the provider selects a function name that is not
  in the registry, \<open>chat\<close> ends in that first pass with the error \<open>getFunction\<close>
  throws, which carries the name. The only effect is the one request sent: nothing is
  pushed onto the caller's array, no function is called, no second request is made.
\<close>

theorem unknown_function_aborts:
  assumes "listFunctions ai = Inr fns"
    and "createChatCompletion (aisdk ai) (build_request ai opts fns s) (world s) = (Inr c, w1)"
    and "choices (data c) = ch # cs"
    and "rm_function_call (ch_message ch) = Some fc"
    and "Map_get (fc_name fc) (registeredFunctions ai) = None"
  shows "chat env ai opts s
         = Some (Inl (not_found (fc_name fc)),
                 s\<lparr>world := w1, trace := trace s @ [Sent (build_request ai opts fns s)]\<rparr>)"
proof -
  have "iteration env ai opts fns False s
        = (Inl (not_found (fc_name fc)),
           s\<lparr>world := w1, trace := trace s @ [Sent (build_request ai opts fns s)]\<rparr>)"
    using assms(2-5) by (simp add: iteration_def getFunction_def Let_def)
  then show ?thesis
    using assms(1) by (subst chat_def, simp, subst chat_loop.simps, simp)
qed

theorem unknown_function_aborts_witness:
  "chat ex_env (ex_ai fc_doThing) ex_opts ex_state
   = Some (Inl (Error ''smolChat error - function doThing not found. Please report a bug.''),
           ex_state\<lparr>world := 1,
             trace := [Sent (build_request (ex_ai fc_doThing) ex_opts [] ex_state)]\<rparr>)"
proof -
  let ?ch = "\<lparr>ch_message = \<lparr>rm_role = Role_assistant, rm_content = None,
                               rm_function_call = fc_doThing\<rparr>\<rparr>"
  let ?c = "\<lparr>data = \<lparr>choices = [?ch]\<rparr>\<rparr>"
  let ?fc = "\<lparr>fc_name = ''doThing'', fc_arguments = ''{}''\<rparr>"
  have 1: "createChatCompletion (aisdk (ex_ai fc_doThing))
             (build_request (ex_ai fc_doThing) ex_opts [] ex_state) (world ex_state) = (Inr ?c, 1)"
    by (simp add: ex_ai_def addFunction_def SmolAI_new_def answering_def ex_state_def Let_def)
  have 2: "choices (data ?c) = ?ch # []" by simp
  have 3: "rm_function_call (ch_message ?ch) = Some ?fc" by (simp add: fc_doThing_def)
  have 4: "Map_get (fc_name ?fc) (registeredFunctions (ex_ai fc_doThing)) = None"
    by (simp add: Map_get_def ex_ai_def addFunction_def SmolAI_new_def Map_new_def Map_set_def
        getWeather_def Let_def)
  show ?thesis
    using unknown_function_aborts [OF listFunctions_ex_ai 1 2 3 4, of ex_env]
    by (simp add: not_found_def ex_state_def)
qed

subsection \<open>A response without a function-call selection\<close>

text \<open>
  Claim C6. In any pass of the loop (whatever \<open>shouldRetry\<close> is and whatever has
  happened before), when the first choice of the response has no function-call
  selection, reading \<open>function_call.name\<close> throws: \<open>chat\<close> ends there with that
  error, which is not the error of an unregistered name, after the request of this pass
  and nothing else.
\<close>

theorem no_selection_aborts:
  assumes "createChatCompletion (aisdk ai) (build_request ai opts fns s) (world s) = (Inr c, w1)"
    and "choices (data c) = ch # cs"
    and "rm_function_call (ch_message ch) = None"
  shows "chat_loop env ai opts fns shouldRetry s
         = Some (Inl (TypeError ''name''),
                 s\<lparr>world := w1, trace := trace s @ [Sent (build_request ai opts fns s)]\<rparr>)
       \<and> TypeError ''name'' \<noteq> not_found n"
proof -
  have "iteration env ai opts fns shouldRetry s
        = (Inl (TypeError ''name''),
           s\<lparr>world := w1, trace := trace s @ [Sent (build_request ai opts fns s)]\<rparr>)"
    using assms by (simp add: iteration_def Let_def)
  then show ?thesis
    by (subst chat_loop.simps) (simp add: not_found_def)
qed

theorem no_selection_aborts_witness:
  "chat_loop ex_env (ex_ai None) ex_opts [] True ex_state
   = Some (Inl (TypeError ''name''),
           ex_state\<lparr>world := 1, trace := [Sent (build_request (ex_ai None) ex_opts [] ex_state)]\<rparr>)
   \<and> TypeError ''name'' \<noteq> not_found ''doThing''"
proof -
  let ?ch = "\<lparr>ch_message = \<lparr>rm_role = Role_assistant, rm_content = None,
                               rm_function_call = None\<rparr>\<rparr>"
  let ?c = "\<lparr>data = \<lparr>choices = [?ch]\<rparr>\<rparr>"
  have 1: "createChatCompletion (aisdk (ex_ai None))
             (build_request (ex_ai None) ex_opts [] ex_state) (world ex_state) = (Inr ?c, 1)"
    by (simp add: ex_ai_def addFunction_def SmolAI_new_def answering_def ex_state_def Let_def)
  have 2: "choices (data ?c) = ?ch # []" by simp
  have 3: "rm_function_call (ch_message ?ch) = None" by simp
  show ?thesis
    using no_selection_aborts [OF 1 2 3, of ex_env True "''doThing''"]
    by (simp add: ex_state_def)
qed

subsection \<open>Plain schema documents are not checked\<close>

text \<open>
  Claim C4. When the selected descriptor has a plain schema document \<open>d\<close> and the
  argument text decodes as JSON to \<open>js\<close>, the decoded value is the argument, whatever
  \<open>d\<close> and \<open>js\<close> are: the pass goes on to call the function with \<open>js\<close>, with nothing
  pushed and \<open>shouldRetry\<close> as it was.
\<close>

theorem plain_schema_accepts:
  assumes "createChatCompletion (aisdk ai) (build_request ai opts fns s) (world s) = (Inr c, w1)"
    and "choices (data c) = ch # cs"
    and "rm_function_call (ch_message ch) = Some fc"
    and "Map_get (fc_name fc) (registeredFunctions ai) = Some sel"
    and "schema sel = JSONSchema7Type d"
    and "JSON_parse env (fc_arguments fc) = Inr js"
  shows "parse_args env sel (fc_arguments fc) = Inr (Some js)
       \<and> iteration env ai opts fns shouldRetry s
         = invoke env ai opts c sel (Some js) shouldRetry
             (s\<lparr>world := w1, trace := trace s @ [Sent (build_request ai opts fns s)]\<rparr>)"
proof -
  have p: "parse_args env sel (fc_arguments fc) = Inr (Some js)"
    using assms(5,6) by (simp add: parse_args_def)
  show ?thesis
    using assms(1-4) p by (simp add: iteration_def getFunction_def Let_def)
qed

theorem plain_schema_accepts_witness:
  "parse_args ex_env
     \<lparr>name = ''getWeather'', fullFunction = getWeather,
      schema = JSONSchema7Type (JObj [(''type'', JStr ''object'')]),
      jsonSchema = JObj [(''type'', JStr ''object'')]\<rparr> ''{\"city\":5}''
   = Inr (Some (JObj [(''city'', JNum 5)]))
   \<and> iteration ex_env (ex_ai_plain fc_five) ex_opts [] False ex_state
     = invoke ex_env (ex_ai_plain fc_five) ex_opts 
         \<lparr>data = \<lparr>choices = [\<lparr>ch_message = \<lparr>rm_role = Role_assistant, rm_content = None,
                               rm_function_call = fc_five\<rparr>\<rparr>]\<rparr>\<rparr>
         \<lparr>name = ''getWeather'', fullFunction = getWeather,
           schema = JSONSchema7Type (JObj [(''type'', JStr ''object'')]),
           jsonSchema = JObj [(''type'', JStr ''object'')]\<rparr>
         (Some (JObj [(''city'', JNum 5)])) False
         (ex_state\<lparr>world := 1,
            trace := [Sent (build_request (ex_ai_plain fc_five) ex_opts [] ex_state)]\<rparr>)"
proof -
  let ?ch = "\<lparr>ch_message = \<lparr>rm_role = Role_assistant, rm_content = None,
                               rm_function_call = fc_five\<rparr>\<rparr>"
  let ?c = "\<lparr>data = \<lparr>choices = [?ch]\<rparr>\<rparr>"
  let ?fc = "\<lparr>fc_name = ''getWeather'', fc_arguments = ''{\"city\":5}''\<rparr>"
  let ?d = "JObj [(''type'', JStr ''object'')]"
  let ?sel = "\<lparr>name = ''getWeather'', fullFunction = getWeather,
               schema = JSONSchema7Type ?d, jsonSchema = ?d\<rparr>"
  have 1: "createChatCompletion (aisdk (ex_ai_plain fc_five))
             (build_request (ex_ai_plain fc_five) ex_opts [] ex_state) (world ex_state) = (Inr ?c, 1)"
    by (simp add: ex_ai_plain_def addFunction_def SmolAI_new_def answering_def ex_state_def Let_def)
  have 2: "choices (data ?c) = ?ch # []" by simp
  have 3: "rm_function_call (ch_message ?ch) = Some ?fc" by (simp add: fc_five_def)
  have 4: "Map_get (fc_name ?fc) (registeredFunctions (ex_ai_plain fc_five)) = Some ?sel"
    by (simp add: Map_get_def ex_ai_plain_def addFunction_def SmolAI_new_def Map_new_def
        Map_set_def getWeather_def Let_def)
  have 5: "schema ?sel = JSONSchema7Type ?d" by simp
  have 6: "JSON_parse ex_env (fc_arguments ?fc) = Inr (JObj [(''city'', JNum 5)])"
    by (simp add: ex_env_def)
  show ?thesis
    using plain_schema_accepts [OF 1 2 3 4 5 6, of False]
    by (simp add: ex_state_def)
qed

subsection \<open>The delay before the next round trip\<close>








subsection \<open>The caller's array is pushed to in place\<close>

lemma pushed_append: "pushed a (tr1 @ tr2) = pushed a tr1 @ pushed a tr2"
  by (induction a tr1 rule: pushed.induct) simp_all

lemma follows_append:
  "follows a sys xs (tr1 @ tr2) = (follows a sys xs tr1 \<and> follows a sys (xs @ pushed a tr1) tr2)"
  by (induction a sys xs tr1 rule: follows.induct) auto

lemma grows_trans:
  assumes "grows a sys s s1" and "grows a sys s1 s2"
  shows "grows a sys s s2"
proof -
  from assms(1) obtain tr1 where
    1: "trace s1 = trace s @ tr1" "arrays s1 = (arrays s)(a := arrays s a @ pushed a tr1)"
       "follows a sys (arrays s a) tr1"
    unfolding grows_def by blast
  from assms(2) obtain tr2 where
    2: "trace s2 = trace s1 @ tr2" "arrays s2 = (arrays s1)(a := arrays s1 a @ pushed a tr2)"
       "follows a sys (arrays s1 a) tr2"
    unfolding grows_def by blast
  have a1: "arrays s1 a = arrays s a @ pushed a tr1" using 1(2) by simp
  have "trace s2 = trace s @ (tr1 @ tr2)" using 1(1) 2(1) by simp
  moreover have "arrays s2 = (arrays s)(a := arrays s a @ pushed a (tr1 @ tr2))"
    using 1(2) 2(2) a1 by (simp add: pushed_append)
  moreover have "follows a sys (arrays s a) (tr1 @ tr2)"
    using 1(3) 2(3) a1 by (simp add: follows_append)
  ultimately show ?thesis unfolding grows_def by blast
qed

lemma coerce_eq:
  "coerce = (\<lambda>x. case x of
                   Text t \<Rightarrow> \<lparr>msg_role = Role_user, msg_name = None, msg_content = Some t\<rparr>
                 | Message m \<Rightarrow> m)"
  by (rule ext) (simp add: coerce_def)

lemma grows_refl: "grows a sys s s"
  unfolding grows_def by (rule exI [of _ "[]"]) simp

lemma grows_sent:
  "grows (messages opts) (systemMessage ai) s
     (s\<lparr>world := w, trace := trace s @ [Sent (build_request ai opts fns s)]\<rparr>)"
  unfolding grows_def
  by (rule exI [of _ "[Sent (build_request ai opts fns s)]"])
     (simp add: build_request_def coerce_eq)

lemma grows_push: "grows a sys s (push a x s)"
  unfolding grows_def
  by (rule exI [of _ "[Pushed a x]"]) (simp add: push_def)

lemma grows_invoke:
  assumes "invoke env ai opts c sel args sr s = (out, s')"
  shows "grows (messages opts) sys s s'"
proof -
  obtain res w1 where f: "fn_call (fullFunction sel) args (world s) = (res, w1)"
    by (cases "fn_call (fullFunction sel) args (world s)")
  obtain r w2 where m: "Math_random env w1 = (r, w2)"
    by (cases "Math_random env w1")
  show ?thesis
  proof (cases res)
    case (Inl e)
    then have "s' = s\<lparr>world := w1, trace := trace s @ [Called (name sel) args]\<rparr>"
      using assms f by (simp add: invoke_def Let_def)
    then show ?thesis
      unfolding grows_def by (intro exI [of _ "[Called (name sel) args]"]) simp
  next
    case (Inr b)
    let ?x = "Message \<lparr>msg_role = Role_function, msg_name = Some (name sel),
                        msg_content = JSON_stringify env b\<rparr>"
    have "trace s' = trace s @ [Called (name sel) args, Pushed (messages opts) ?x,
                                Waited (backoff ai r)]"
      and "arrays s' = (arrays s)(messages opts := arrays s (messages opts) @ [?x])"
      using assms f m Inr by (auto simp: invoke_def push_def Let_def)
    then show ?thesis
      unfolding grows_def
      by (intro exI [of _ "[Called (name sel) args, Pushed (messages opts) ?x,
                            Waited (backoff ai r)]"]) simp
  qed
qed

lemma grows_iteration:
  assumes "iteration env ai opts fns sr s = (out, s')"
  shows "grows (messages opts) (systemMessage ai) s s'"
proof -
  let ?a = "messages opts" and ?sys = "systemMessage ai"
  let ?req = "build_request ai opts fns s"
  obtain r w1 where p: "createChatCompletion (aisdk ai) ?req (world s) = (r, w1)"
    by (cases "createChatCompletion (aisdk ai) ?req (world s)")
  let ?s1 = "s\<lparr>world := w1, trace := trace s @ [Sent ?req]\<rparr>"
  have g1: "grows ?a ?sys s ?s1" by (rule grows_sent)
  have "s' = ?s1
        \<or> (\<exists>c sel args sr1. invoke env ai opts c sel args sr1 ?s1 = (out, s'))
        \<or> (\<exists>c sel args sr1 x. invoke env ai opts c sel args sr1 (push ?a x ?s1) = (out, s'))"
    using assms p
    by (auto simp: iteration_def Let_def split: sum.splits list.splits option.splits)
  then show ?thesis
  proof (elim disjE exE)
    assume "s' = ?s1"
    then show ?thesis using g1 by simp
  next
    fix c sel args sr1
    assume "invoke env ai opts c sel args sr1 ?s1 = (out, s')"
    from grows_trans [OF g1 grows_invoke [OF this]] show ?thesis .
  next
    fix c sel args sr1 x
    assume "invoke env ai opts c sel args sr1 (push ?a x ?s1) = (out, s')"
    from grows_trans [OF grows_trans [OF g1 grows_push] grows_invoke [OF this]]
    show ?thesis .
  qed
qed

lemma grows_chat_loop:
  assumes "chat_loop env ai opts fns sr s = Some y"
  shows "grows (messages opts) (systemMessage ai) s (snd y)"
proof (rule chat_loop.raw_induct
    [where P = "\<lambda>env ai opts fns sr s y. grows (messages opts) (systemMessage ai) s (snd y)",
      OF _ assms])
  fix loop :: "'a env \<Rightarrow> 'a SmolAI \<Rightarrow> 'a opts \<Rightarrow> 'a RegisteredFunctionType list \<Rightarrow> bool
               \<Rightarrow> 'a state \<Rightarrow> ((error + response) \<times> 'a state) option"
  fix env ai opts fns sr s y
  assume IH: "\<And>env ai opts fns sr s y. loop env ai opts fns sr s = Some y
              \<Longrightarrow> grows (messages opts) (systemMessage ai) s (snd y)"
  assume step: "(case iteration env ai opts fns sr s of
                   (Inl e, s') \<Rightarrow> Some (Inl e, s')
                 | (Inr (chatCompletion, shouldRetry'), s') \<Rightarrow>
                     if shouldRetry' \<and> retryAttempts ai < retryLimit ai
                     then loop env ai opts fns shouldRetry' s'
                     else Some (Inr chatCompletion, s')) = Some y"
  obtain out s1 where it: "iteration env ai opts fns sr s = (out, s1)"
    by (cases "iteration env ai opts fns sr s")
  have g: "grows (messages opts) (systemMessage ai) s s1"
    by (rule grows_iteration [OF it])
  show "grows (messages opts) (systemMessage ai) s (snd y)"
  proof (cases out)
    case (Inl e)
    then have "y = (Inl e, s1)" using step it by simp
    then show ?thesis using g by simp
  next
    case (Inr p)
    obtain c sr' where pp: "p = (c, sr')" by (cases p)
    show ?thesis
    proof (cases "sr' \<and> retryAttempts ai < retryLimit ai")
      case True
      then have "loop env ai opts fns sr' s1 = Some y"
        using step it Inr pp by simp
      from grows_trans [OF g IH [OF this]] show ?thesis .
    next
      case False
      then have "y = (Inr c, s1)" using step it Inr pp by auto
      then show ?thesis using g by simp
    qed
  qed
qed

lemma grows_passes:
  assumes "passes n env ai opts fns sr s = (out, s')"
  shows "grows (messages opts) (systemMessage ai) s s'"
  using assms
proof (induction n arbitrary: sr s)
  case 0
  then show ?case by (simp add: grows_refl)
next
  case (Suc n)
  obtain r s1 where it: "iteration env ai opts fns sr s = (r, s1)"
    by (cases "iteration env ai opts fns sr s")
  have g: "grows (messages opts) (systemMessage ai) s s1"
    by (rule grows_iteration [OF it])
  show ?case
  proof (cases r)
    case (Inl e)
    then have "s' = s1" using Suc.prems it by simp
    then show ?thesis using g by simp
  next
    case (Inr p)
    obtain c sr' where pp: "p = (c, sr')" by (cases p)
    show ?thesis
    proof (cases "sr' \<and> retryAttempts ai < retryLimit ai")
      case True
      then have "passes n env ai opts fns sr' s1 = (out, s')"
        using Suc.prems it Inr pp by simp
      from grows_trans [OF g Suc.IH [OF this]] show ?thesis .
    next
      case False
      then have "s' = s1" using Suc.prems it Inr pp by auto
      then show ?thesis using g by simp
    qed
  qed
qed

text \<open>What the loop returns, it returns within some number of passes, and conversely.\<close>

lemma passes_chat_loop:
  assumes "passes n env ai opts fns sr s = (Some r, s')"
  shows "chat_loop env ai opts fns sr s = Some (r, s')"
  using assms
proof (induction n arbitrary: sr s)
  case 0
  then show ?case by simp
next
  case (Suc n)
  obtain x s1 where it: "iteration env ai opts fns sr s = (x, s1)"
    by (cases "iteration env ai opts fns sr s")
  show ?case
  proof (cases x)
    case (Inl e)
    then show ?thesis using Suc.prems it by (subst chat_loop.simps) simp
  next
    case (Inr p)
    obtain c sr' where pp: "p = (c, sr')" by (cases p)
    show ?thesis
    proof (cases "sr' \<and> retryAttempts ai < retryLimit ai")
      case True
      then have "passes n env ai opts fns sr' s1 = (Some r, s')"
        using Suc.prems it Inr pp by simp
      from Suc.IH [OF this] show ?thesis
        using it Inr pp True by (subst chat_loop.simps) simp
    next
      case False
      then show ?thesis
        using Suc.prems it Inr pp by (subst chat_loop.simps) auto
    qed
  qed
qed

lemma pass_pushes:
  assumes "createChatCompletion (aisdk ai) (build_request ai opts fns s) (world s) = (Inr c, w1)"
    and "choices (data c) = ch # cs"
    and "rm_function_call (ch_message ch) = Some fc"
    and "Map_get (fc_name fc) (registeredFunctions ai) = Some sel"
    and "fn_call (fullFunction sel)
           (case parse_args env sel (fc_arguments fc) of Inl msg \<Rightarrow> None | Inr v \<Rightarrow> v) w1
         = (res, w2)"
  shows "arrays (snd (iteration env ai opts fns sr s))
         = (arrays s)(messages opts := arrays s (messages opts)
             @ (case parse_args env sel (fc_arguments fc) of
                  Inl msg \<Rightarrow>
                    [Message \<lparr>msg_role = Role_user, msg_name = None,
                       msg_content = Some (''Your function call involved invalid arguments.''
                         @ [CHR 0x0A] @ ''            '' @ msg @ [CHR 0x0A]
                         @ ''            Please respond only with valid JSON under the provided schema.''
                         @ [CHR 0x0A] @ ''            '')\<rparr>]
                | Inr v \<Rightarrow> [])
             @ (case res of
                  Inl e \<Rightarrow> []
                | Inr results \<Rightarrow>
                    [Message \<lparr>msg_role = Role_function, msg_name = Some (name sel),
                       msg_content = JSON_stringify env results\<rparr>]))"
proof (cases "parse_args env sel (fc_arguments fc)")
  case (Inl msg)
  then show ?thesis
    using assms
    by (cases res; cases "Math_random env w2")
       (simp_all add: iteration_def invoke_def getFunction_def push_def invalid_arguments_def
          Let_def)
next
  case (Inr v)
  then show ?thesis
    using assms
    by (cases res; cases "Math_random env w2")
       (simp_all add: iteration_def invoke_def getFunction_def push_def Let_def)
qed

text \<open>
  Claim C10. \<open>chat\<close> pushes onto the array the caller passed as \<open>opts.messages\<close>, and
  builds every request from that array.

  \<^item> After any number of passes of the loop, from any state, and so also in a call that
    never returns: the array at \<open>opts.messages\<close> holds what it held before followed by
    every item pushed since, in order; no other array has changed; and every request
    sent carries the system message followed by the array as it was at that moment,
    so with every item pushed earlier in the call.
  \<^item> The same holds of the state in which \<open>chat\<close> returns, with a response or with an
    error.
  \<^item> What a pass pushes, when the provider selects a registered function: the
    corrective user message with the error text, if the argument text does not parse or
    validate; then the function message with the name of the descriptor and the
    serialized result, if the function returns.
\<close>

theorem chat_pushes_in_place:
  "(passes n env ai opts fns shouldRetry s = (out, s')
    \<longrightarrow> (\<exists>tr. trace s' = trace s @ tr
              \<and> arrays s' = (arrays s)(messages opts :=
                               arrays s (messages opts) @ pushed (messages opts) tr)
              \<and> follows (messages opts) (systemMessage ai) (arrays s (messages opts)) tr))
   \<and> (chat env ai opts s = Some (r, s'')
      \<longrightarrow> (\<exists>tr. trace s'' = trace s @ tr
                \<and> arrays s'' = (arrays s)(messages opts :=
                                  arrays s (messages opts) @ pushed (messages opts) tr)
                \<and> follows (messages opts) (systemMessage ai) (arrays s (messages opts)) tr))
   \<and> (createChatCompletion (aisdk ai) (build_request ai opts fns s) (world s) = (Inr c, w1)
      \<and> choices (data c) = ch # cs
      \<and> rm_function_call (ch_message ch) = Some fc
      \<and> Map_get (fc_name fc) (registeredFunctions ai) = Some sel
      \<and> fn_call (fullFunction sel)
           (case parse_args env sel (fc_arguments fc) of Inl msg \<Rightarrow> None | Inr v \<Rightarrow> v) w1
         = (res, w2)
      \<longrightarrow> arrays (snd (iteration env ai opts fns shouldRetry s))
          = (arrays s)(messages opts := arrays s (messages opts)
              @ (case parse_args env sel (fc_arguments fc) of
                   Inl msg \<Rightarrow>
                     [Message \<lparr>msg_role = Role_user, msg_name = None,
                        msg_content = Some (''Your function call involved invalid arguments.''
                          @ [CHR 0x0A] @ ''            '' @ msg @ [CHR 0x0A]
                          @ ''            Please respond only with valid JSON under the provided schema.''
                          @ [CHR 0x0A] @ ''            '')\<rparr>]
                 | Inr v \<Rightarrow> [])
              @ (case res of
                   Inl e \<Rightarrow> []
                 | Inr results \<Rightarrow>
                     [Message \<lparr>msg_role = Role_function, msg_name = Some (name sel),
                        msg_content = JSON_stringify env results\<rparr>])))"
proof (intro conjI impI)
  assume "passes n env ai opts fns shouldRetry s = (out, s')"
  from grows_passes [OF this]
  show "\<exists>tr. trace s' = trace s @ tr
           \<and> arrays s' = (arrays s)(messages opts :=
                            arrays s (messages opts) @ pushed (messages opts) tr)
           \<and> follows (messages opts) (systemMessage ai) (arrays s (messages opts)) tr"
    by (simp add: grows_def)
next
  assume c: "chat env ai opts s = Some (r, s'')"
  show "\<exists>tr. trace s'' = trace s @ tr
           \<and> arrays s'' = (arrays s)(messages opts :=
                             arrays s (messages opts) @ pushed (messages opts) tr)
           \<and> follows (messages opts) (systemMessage ai) (arrays s (messages opts)) tr"
  proof (cases "listFunctions ai")
    case (Inl e)
    then have "s'' = s" using c by (simp add: chat_def)
    then show ?thesis by (intro exI [of _ "[]"]) simp
  next
    case (Inr fs)
    then have "chat_loop env ai opts fs False s = Some (r, s'')"
      using c by (simp add: chat_def)
    from grows_chat_loop [OF this] show ?thesis by (simp add: grows_def)
  qed
next
  assume "createChatCompletion (aisdk ai) (build_request ai opts fns s) (world s) = (Inr c, w1)
      \<and> choices (data c) = ch # cs
      \<and> rm_function_call (ch_message ch) = Some fc
      \<and> Map_get (fc_name fc) (registeredFunctions ai) = Some sel
      \<and> fn_call (fullFunction sel)
           (case parse_args env sel (fc_arguments fc) of Inl msg \<Rightarrow> None | Inr v \<Rightarrow> v) w1
         = (res, w2)"
  then show "arrays (snd (iteration env ai opts fns shouldRetry s))
          = (arrays s)(messages opts := arrays s (messages opts)
              @ (case parse_args env sel (fc_arguments fc) of
                   Inl msg \<Rightarrow>
                     [Message \<lparr>msg_role = Role_user, msg_name = None,
                        msg_content = Some (''Your function call involved invalid arguments.''
                          @ [CHR 0x0A] @ ''            '' @ msg @ [CHR 0x0A]
                          @ ''            Please respond only with valid JSON under the provided schema.''
                          @ [CHR 0x0A] @ ''            '')\<rparr>]
                 | Inr v \<Rightarrow> [])
              @ (case res of
                   Inl e \<Rightarrow> []
                 | Inr results \<Rightarrow>
                     [Message \<lparr>msg_role = Role_function, msg_name = Some (name sel),
                        msg_content = JSON_stringify env results\<rparr>]))"
    using pass_pushes [of ai opts fns s c w1 ch cs fc sel env res w2 shouldRetry] by blast
qed

lemma chat_scripted:
  "chat ex_env (ex_ai_scripted [fc_garbled]) ex_opts ex_state
   = Some (Inl (TypeError ''name''), ex_final)"
  apply (simp add: chat_def listFunctions_ex_ai_scripted)
  apply (subst chat_loop.simps)
  apply (simp add: iteration_def invoke_def build_request_def parse_args_def getFunction_def
      Map_get_def push_def forced_name_def backoff_half ex_ai_scripted_def ex_env_def ex_opts_def
      ex_state_def getWeather_def scripted_def city_schema_def SmolAI_new_def addFunction_def
      Map_new_def Map_set_def fc_garbled_def Let_def)
  apply (subst chat_loop.simps)
  apply (simp add: iteration_def invoke_def build_request_def parse_args_def getFunction_def
      Map_get_def push_def forced_name_def backoff_half ex_ai_scripted_def ex_env_def ex_opts_def
      ex_state_def getWeather_def scripted_def city_schema_def SmolAI_new_def addFunction_def
      Map_new_def Map_set_def fc_garbled_def Let_def ex_final_def tempC_message_def
      unexpected_token_message_def system_message_def question_message_def coerce_def
      invalid_arguments_def fun_eq_iff)
  done

lemma two_passes_garbled:
  "fst (passes 2 ex_env (ex_ai fc_garbled) ex_opts [] False ex_state) = None
   \<and> sent_messages (trace (snd (passes 2 ex_env (ex_ai fc_garbled) ex_opts [] False ex_state)))
     = [[system_message, question_message],
        [system_message, question_message, unexpected_token_message,
         \<lparr>msg_role = Role_function, msg_name = Some ''getWeather'',
          msg_content = Some ''{\"tempC\":18}''\<rparr>]]"
  by (simp add: numeral_2_eq_2 iteration_def invoke_def build_request_def parse_args_def
      getFunction_def Map_get_def push_def forced_name_def backoff_half ex_ai_def ex_env_def
      ex_opts_def ex_state_def getWeather_def answering_def city_schema_def SmolAI_new_def
      addFunction_def Map_new_def Map_set_def fc_garbled_def Let_def
      unexpected_token_message_def system_message_def question_message_def coerce_def
      invalid_arguments_def)

theorem chat_pushes_in_place_witness:
  "fst (passes 2 ex_env (ex_ai fc_garbled) ex_opts [] False ex_state) = None
   \<and> sent_messages (trace (snd (passes 2 ex_env (ex_ai fc_garbled) ex_opts [] False ex_state)))
     = [[system_message, question_message],
        [system_message, question_message, unexpected_token_message,
         \<lparr>msg_role = Role_function, msg_name = Some ''getWeather'',
          msg_content = Some ''{\"tempC\":18}''\<rparr>]]
   \<and> (\<exists>tr. trace (snd (passes 2 ex_env (ex_ai fc_garbled) ex_opts [] False ex_state))
            = trace ex_state @ tr
          \<and> arrays (snd (passes 2 ex_env (ex_ai fc_garbled) ex_opts [] False ex_state))
            = (arrays ex_state)(messages ex_opts :=
                 arrays ex_state (messages ex_opts) @ pushed (messages ex_opts) tr)
          \<and> follows (messages ex_opts) (systemMessage (ex_ai fc_garbled))
               (arrays ex_state (messages ex_opts)) tr)
   \<and> chat ex_env (ex_ai_scripted [fc_garbled]) ex_opts ex_state
     = Some (Inl (TypeError ''name''), ex_final)
   \<and> (\<exists>tr. trace ex_final = trace ex_state @ tr
          \<and> arrays ex_final = (arrays ex_state)(messages ex_opts :=
                                arrays ex_state (messages ex_opts) @ pushed (messages ex_opts) tr)
          \<and> follows (messages ex_opts) (systemMessage (ex_ai_scripted [fc_garbled]))
               (arrays ex_state (messages ex_opts)) tr)
   \<and> arrays (snd (iteration ex_env (ex_ai fc_garbled) ex_opts [] False ex_state))
     = (arrays ex_state)(messages ex_opts :=
          arrays ex_state (messages ex_opts) @ [Message unexpected_token_message, tempC_message])"
proof -
  let ?ai = "ex_ai fc_garbled"
  let ?two = "passes 2 ex_env ?ai ex_opts [] False ex_state"
  let ?ch = "\<lparr>ch_message = \<lparr>rm_role = Role_assistant, rm_content = None,
                               rm_function_call = fc_garbled\<rparr>\<rparr>"
  let ?c = "\<lparr>data = \<lparr>choices = [?ch]\<rparr>\<rparr>"
  let ?fc = "\<lparr>fc_name = ''getWeather'', fc_arguments = ''not json''\<rparr>"
  let ?sel = "\<lparr>name = ''getWeather'', fullFunction = getWeather, schema = Zod city_schema,
               jsonSchema = JObj [(''type'', JStr ''object'')]\<rparr>"
  have p: "?two = (None, snd ?two)"
    using two_passes_garbled by (metis prod.collapse)
  have A: "\<exists>tr. trace (snd ?two) = trace ex_state @ tr
          \<and> arrays (snd ?two)
            = (arrays ex_state)(messages ex_opts :=
                 arrays ex_state (messages ex_opts) @ pushed (messages ex_opts) tr)
          \<and> follows (messages ex_opts) (systemMessage ?ai) (arrays ex_state (messages ex_opts)) tr"
    using chat_pushes_in_place [of 2 ex_env ?ai ex_opts "[]" False ex_state None "snd ?two"] p
    by blast
  have B: "\<exists>tr. trace ex_final = trace ex_state @ tr
          \<and> arrays ex_final = (arrays ex_state)(messages ex_opts :=
                                arrays ex_state (messages ex_opts) @ pushed (messages ex_opts) tr)
          \<and> follows (messages ex_opts) (systemMessage (ex_ai_scripted [fc_garbled]))
               (arrays ex_state (messages ex_opts)) tr"
    using chat_pushes_in_place [of _ ex_env "ex_ai_scripted [fc_garbled]" ex_opts _ _ ex_state _ _
        "Inl (TypeError ''name'')" ex_final] chat_scripted
    by blast
  have 1: "createChatCompletion (aisdk ?ai) (build_request ?ai ex_opts [] ex_state) (world ex_state)
           = (Inr ?c, 1)"
    by (simp add: ex_ai_def addFunction_def SmolAI_new_def answering_def ex_state_def Let_def)
  have 2: "choices (data ?c) = ?ch # []" by simp
  have 3: "rm_function_call (ch_message ?ch) = Some ?fc" by (simp add: fc_garbled_def)
  have 4: "Map_get (fc_name ?fc) (registeredFunctions ?ai) = Some ?sel"
    by (simp add: Map_get_def ex_ai_def addFunction_def SmolAI_new_def Map_new_def Map_set_def
        ex_env_def getWeather_def Let_def)
  have 5: "parse_args ex_env ?sel (fc_arguments ?fc) = Inl ''Unexpected token''"
    by (simp add: parse_args_def ex_env_def)
  have 6: "fn_call (fullFunction ?sel)
             (case parse_args ex_env ?sel (fc_arguments ?fc) of Inl msg \<Rightarrow> None | Inr v \<Rightarrow> v) 1
           = (Inr (Some (JObj [(''tempC'', JNum 18)])), 1)"
    unfolding 5 by (simp add: getWeather_def)
  have C: "arrays (snd (iteration ex_env ?ai ex_opts [] False ex_state))
     = (arrays ex_state)(messages ex_opts :=
          arrays ex_state (messages ex_opts) @ [Message unexpected_token_message, tempC_message])"
    using chat_pushes_in_place [of _ ex_env ?ai ex_opts "[]" False ex_state _ _ _ _ ?c 1 ?ch "[]"
        ?fc ?sel "Inr (Some (JObj [(''tempC'', JNum 18)]))" 1] 1 2 3 4 6
    unfolding 5
    by (simp add: unexpected_token_message_def tempC_message_def ex_env_def)
  from two_passes_garbled A chat_scripted B C show ?thesis by blast
qed

subsection \<open>The retry counter is never advanced\<close>

lemma chat_loop_never_returns:
  assumes lt: "retryAttempts ai < retryLimit ai"
    and it: "\<And>sr s. \<exists>c s'. iteration env ai opts fns sr s = (Inr (c, True), s')"
  shows "chat_loop env ai opts fns sr s = None"
proof (cases "chat_loop env ai opts fns sr s")
  case None
  then show ?thesis .
next
  case (Some y)
  have "\<not> (env = env \<and> ai = ai \<and> opts = opts \<and> fns = fns)"
  proof (rule chat_loop.raw_induct
      [where P = "\<lambda>env' ai' opts' fns' sr s y.
                    \<not> (env' = env \<and> ai' = ai \<and> opts' = opts \<and> fns' = fns)",
        OF _ Some])
    fix loop :: "'a env \<Rightarrow> 'a SmolAI \<Rightarrow> 'a opts \<Rightarrow> 'a RegisteredFunctionType list \<Rightarrow> bool
                 \<Rightarrow> 'a state \<Rightarrow> ((error + response) \<times> 'a state) option"
    fix env' ai' opts' fns' sr s y
    assume IH: "\<And>env' ai' opts' fns' sr s y. loop env' ai' opts' fns' sr s = Some y
                \<Longrightarrow> \<not> (env' = env \<and> ai' = ai \<and> opts' = opts \<and> fns' = fns)"
    assume step: "(case iteration env' ai' opts' fns' sr s of
                     (Inl e, s') \<Rightarrow> Some (Inl e, s')
                   | (Inr (chatCompletion, shouldRetry'), s') \<Rightarrow>
                       if shouldRetry' \<and> retryAttempts ai' < retryLimit ai'
                       then loop env' ai' opts' fns' shouldRetry' s'
                       else Some (Inr chatCompletion, s')) = Some y"
    show "\<not> (env' = env \<and> ai' = ai \<and> opts' = opts \<and> fns' = fns)"
    proof
      assume eq: "env' = env \<and> ai' = ai \<and> opts' = opts \<and> fns' = fns"
      from it obtain c s' where "iteration env ai opts fns sr s = (Inr (c, True), s')"
        by blast
      then have "loop env ai opts fns True s' = Some y"
        using step eq lt by simp
      from IH [OF this] show False by simp
    qed
  qed
  then show ?thesis by simp
qed

lemma iteration_garbled:
  "\<exists>c s'. iteration ex_env (ex_ai fc_garbled) ex_opts [] sr s = (Inr (c, True), s')"
  by (simp add: iteration_def invoke_def build_request_def parse_args_def getFunction_def
      Map_get_def push_def ex_ai_def ex_env_def ex_opts_def getWeather_def answering_def
      SmolAI_new_def addFunction_def Map_new_def Map_set_def fc_garbled_def Let_def)

text \<open>
  Claim C3. On a new instance (\<open>retryAttempts = 0\<close>, \<open>retryLimit = 5\<close>) with
  \<open>getWeather\<close> registered, against a provider that always selects \<open>getWeather\<close> with
  argument text that is not JSON, \<open>chat\<close> never returns: every pass sets
  \<open>shouldRetry\<close>, and nothing advances \<open>retryAttempts\<close>.
\<close>

theorem invalid_arguments_loop_forever:
  "chat ex_env (ex_ai fc_garbled) ex_opts ex_state = None"
proof -
  have lt: "retryAttempts (ex_ai fc_garbled) < retryLimit (ex_ai fc_garbled)"
    by (simp add: ex_ai_def addFunction_def SmolAI_new_def Let_def)
  have "chat_loop ex_env (ex_ai fc_garbled) ex_opts [] False ex_state = None"
    by (rule chat_loop_never_returns [OF lt iteration_garbled])
  then show ?thesis
    by (simp add: chat_def listFunctions_ex_ai)
qed

subsection \<open>What the registry holds\<close>

lemma set_entry_subset: "p \<in> set (set_entry k v ps) \<Longrightarrow> p = (k, v) \<or> p \<in> set ps"
  by (induction ps) (auto split: if_splits)

lemma delete_entry_subset: "p \<in> set (delete_entry k ps) \<Longrightarrow> p \<in> set ps"
  by (induction ps) (auto split: if_splits)

lemma registered_by_append:
  "registered_by env (xs @ ys) p = (registered_by env xs p \<or> registered_by env ys p)"
  by (induction env xs p rule: registered_by.induct) auto

lemma registered_by_wire:
  "registered_by env ops p \<Longrightarrow>
     name (snd p) = fst p \<and> jsonSchema (snd p) = wire env (schema (snd p))"
  by (induction env ops p rule: registered_by.induct) auto

lemma run_ops_registered:
  assumes "\<forall>p\<in>set (mapData (registeredFunctions ai)). registered_by env before p"
    and "p \<in> set (mapData (registeredFunctions (run_ops env ops ai)))"
  shows "registered_by env (before @ ops) p"
  using assms
proof (induction ops arbitrary: ai before)
  case Nil
  then show ?case by simp
next
  case (Cons op ops)
  show ?case
  proof (cases op)
    case (Register f sch)
    let ?d = "\<lparr>name = fn_name f, fullFunction = f, schema = sch, jsonSchema = wire env sch\<rparr>"
    have m: "mapData (registeredFunctions (addFunction env f sch ai))
             = set_entry (fn_name f) ?d (mapData (registeredFunctions ai))"
      by (simp add: addFunction_def Map_set_def wire_def Let_def)
    have "\<forall>q\<in>set (mapData (registeredFunctions (addFunction env f sch ai))).
            registered_by env (before @ [op]) q"
    proof
      fix q
      assume "q \<in> set (mapData (registeredFunctions (addFunction env f sch ai)))"
      then have "q = (fn_name f, ?d) \<or> q \<in> set (mapData (registeredFunctions ai))"
        unfolding m by (rule set_entry_subset)
      then show "registered_by env (before @ [op]) q"
        using Cons.prems(1) Register by (auto simp: registered_by_append)
    qed
    from Cons.IH [OF this] Cons.prems(2) Register show ?thesis by simp
  next
    case (Deregister r)
    have "\<forall>q\<in>set (mapData (registeredFunctions (deregisterFunction r ai))).
            registered_by env (before @ [op]) q"
    proof
      fix q
      assume "q \<in> set (mapData (registeredFunctions (deregisterFunction r ai)))"
      then have "q \<in> set (mapData (registeredFunctions ai))"
        by (cases r) (auto simp: deregisterFunction_def Map_delete_def dest: delete_entry_subset)
      then show "registered_by env (before @ [op]) q"
        using Cons.prems(1) by (simp add: registered_by_append)
    qed
    from Cons.IH [OF this] Cons.prems(2) Deregister show ?thesis by simp
  qed
qed

text \<open>
  Claim C9, as stated, fails: \<open>addFunction\<close> takes the name of the function as it
  is, and an anonymous function has the empty name. Registering one on a new instance
  leaves a descriptor with the empty name, under the empty key.
\<close>

theorem anonymous_function_counterexample:
  "mapData (registeredFunctions
     (run_ops ex_env [Register anonymous (Zod city_schema)] (SmolAI_new (answering None) None)))
   = [([], \<lparr>name = [], fullFunction = anonymous, schema = Zod city_schema,
            jsonSchema = JObj [(''type'', JStr ''object'')]\<rparr>)]"
  by (simp add: addFunction_def SmolAI_new_def Map_new_def Map_set_def ex_env_def anonymous_def
      Let_def)

lemma run_ops_append: "run_ops env (xs @ ys) ai = run_ops env ys (run_ops env xs ai)"
  by (induction env xs ai rule: run_ops.induct) simp_all

lemma get_entry_set_entry: "get_entry k (set_entry k v ps) = Some v"
  by (induction ps) simp_all

lemma Map_get_addFunction:
  "Map_get (fn_name f) (registeredFunctions (addFunction env f sch ai))
   = Some \<lparr>name = fn_name f, fullFunction = f, schema = sch,
            jsonSchema = (case sch of Zod z \<Rightarrow> zodToJsonSchema env z | JSONSchema7Type d \<Rightarrow> d)\<rparr>"
  by (simp add: Map_get_def addFunction_def Map_set_def get_entry_set_entry Let_def)

lemma registered_by_function:
  "registered_by env ops p \<Longrightarrow> name (snd p) = fn_name (fullFunction (snd p))"
  by (induction env ops p rule: registered_by.induct) auto

text \<open>
  Claim C9, amended. After any sequence of registrations and deregistrations on a new
  instance, every descriptor in the registry is the one \<open>addFunction\<close> built for one
  of the registrations of the sequence: it is stored under its name, its name is the
  name of the function it holds, and its wire schema is derived from its schema (the
  schema itself when it is a plain document, its conversion when it is structured). The
  name is not checked: registering any function, with whatever name, the empty one
  included, stores its descriptor under that name.
\<close>

theorem registry_descriptors:
  "(\<forall>p\<in>set (mapData (registeredFunctions (run_ops env ops (SmolAI_new sdk m)))).
      name (snd p) = fst p
      \<and> name (snd p) = fn_name (fullFunction (snd p))
      \<and> jsonSchema (snd p)
          = (case schema (snd p) of Zod z \<Rightarrow> zodToJsonSchema env z | JSONSchema7Type d \<Rightarrow> d)
      \<and> registered_by env ops p)
   \<and> Map_get (fn_name f)
        (registeredFunctions (run_ops env (ops @ [Register f sch]) (SmolAI_new sdk m)))
     = Some \<lparr>name = fn_name f, fullFunction = f, schema = sch,
              jsonSchema = (case sch of Zod z \<Rightarrow> zodToJsonSchema env z | JSONSchema7Type d \<Rightarrow> d)\<rparr>"
proof
  show "\<forall>p\<in>set (mapData (registeredFunctions (run_ops env ops (SmolAI_new sdk m)))).
      name (snd p) = fst p
      \<and> name (snd p) = fn_name (fullFunction (snd p))
      \<and> jsonSchema (snd p)
          = (case schema (snd p) of Zod z \<Rightarrow> zodToJsonSchema env z | JSONSchema7Type d \<Rightarrow> d)
      \<and> registered_by env ops p"
  proof
    fix p
    assume p: "p \<in> set (mapData (registeredFunctions (run_ops env ops (SmolAI_new sdk m))))"
    have "\<forall>q\<in>set (mapData (registeredFunctions (SmolAI_new sdk m))). registered_by env [] q"
      by (simp add: SmolAI_new_def Map_new_def)
    from run_ops_registered [OF this p] have r: "registered_by env ops p" by simp
    from registered_by_wire [OF r] registered_by_function [OF r] r
    show "name (snd p) = fst p
      \<and> name (snd p) = fn_name (fullFunction (snd p))
      \<and> jsonSchema (snd p)
          = (case schema (snd p) of Zod z \<Rightarrow> zodToJsonSchema env z | JSONSchema7Type d \<Rightarrow> d)
      \<and> registered_by env ops p"
      by (simp add: wire_def)
  qed
  show "Map_get (fn_name f)
        (registeredFunctions (run_ops env (ops @ [Register f sch]) (SmolAI_new sdk m)))
     = Some \<lparr>name = fn_name f, fullFunction = f, schema = sch,
              jsonSchema = (case sch of Zod z \<Rightarrow> zodToJsonSchema env z | JSONSchema7Type d \<Rightarrow> d)\<rparr>"
    by (simp add: run_ops_append Map_get_addFunction)
qed

theorem registry_descriptors_witness:
  "(''getWeather'',
    \<lparr>name = ''getWeather'', fullFunction = getWeather,
     schema = JSONSchema7Type (JObj [(''type'', JStr ''object'')]),
     jsonSchema = JObj [(''type'', JStr ''object'')]\<rparr>)
   \<in> set (mapData (registeredFunctions
        (run_ops ex_env
           [Register anonymous (Zod city_schema),
            Register getWeather (JSONSchema7Type (JObj [(''type'', JStr ''object'')]))]
           (SmolAI_new (answering None) None))))
   \<and> registered_by ex_env
        [Register anonymous (Zod city_schema),
         Register getWeather (JSONSchema7Type (JObj [(''type'', JStr ''object'')]))]
        (''getWeather'',
         \<lparr>name = ''getWeather'', fullFunction = getWeather,
          schema = JSONSchema7Type (JObj [(''type'', JStr ''object'')]),
          jsonSchema = JObj [(''type'', JStr ''object'')]\<rparr>)
   \<and> Map_get (fn_name anonymous)
        (registeredFunctions
          (run_ops ex_env
             ([Register anonymous (Zod city_schema),
               Register getWeather (JSONSchema7Type (JObj [(''type'', JStr ''object'')]))]
              @ [Register anonymous (Zod city_schema)])
             (SmolAI_new (answering None) None)))
     = Some \<lparr>name = [], fullFunction = anonymous, schema = Zod city_schema,
              jsonSchema = JObj [(''type'', JStr ''object'')]\<rparr>"
proof -
  let ?d = "\<lparr>name = ''getWeather'', fullFunction = getWeather,
             schema = JSONSchema7Type (JObj [(''type'', JStr ''object'')]),
             jsonSchema = JObj [(''type'', JStr ''object'')]\<rparr>"
  let ?ops = "[Register anonymous (Zod city_schema),
               Register getWeather (JSONSchema7Type (JObj [(''type'', JStr ''object'')]))]"
  have 1: "(''getWeather'', ?d)
           \<in> set (mapData (registeredFunctions (run_ops ex_env ?ops (SmolAI_new (answering None) None))))"
    by (simp add: addFunction_def SmolAI_new_def Map_new_def Map_set_def
        getWeather_def anonymous_def Let_def)
  have a: "fn_name anonymous = []" by (simp add: anonymous_def)
  have z: "zodToJsonSchema ex_env city_schema = JObj [(''type'', JStr ''object'')]"
    by (simp add: ex_env_def)
  from registry_descriptors [of ex_env ?ops "answering None" None anonymous "Zod city_schema"] 1
  show ?thesis
    unfolding a by (auto simp: z)
qed

subsection \<open>Listing the registered functions\<close>

text \<open>
  \<open>listFunctions\<close> maps over \<open>Object.keys\<close> of the \<open>Map\<close>, which lists own
  properties, not entries: on an instance that has only been through \<open>addFunction\<close>
  and \<open>deregisterFunction\<close> the list is empty.
\<close>

lemma ownProps_run_ops:
  "ownProps (registeredFunctions (run_ops env ops ai)) = ownProps (registeredFunctions ai)"
proof (induction ops arbitrary: ai)
  case Nil
  show ?case by simp
next
  case (Cons op ops)
  show ?case
  proof (cases op)
    case (Register f sch)
    then show ?thesis
      using Cons.IH [of "addFunction env f sch ai"]
      by (simp add: addFunction_def Map_set_def Let_def)
  next
    case (Deregister r)
    then show ?thesis
      using Cons.IH [of "deregisterFunction r ai"]
      by (cases r) (simp_all add: deregisterFunction_def Map_delete_def)
  qed
qed

lemma listFunctions_run_ops_new: "listFunctions (run_ops env ops (SmolAI_new sdk m)) = Inr []"
  by (simp add: listFunctions_def Object_keys_def ownProps_run_ops SmolAI_new_def Map_new_def)

text \<open>
  Claim C1. With \<open>getWeather\<close> registered on a new instance, the registry holds its
  descriptor, \<open>listFunctions\<close> returns the empty list, and the request \<open>chat\<close> sends
  (function calls are not disabled) carries no function spec.
\<close>

theorem listFunctions_misses_registered:
  "Map_get ''getWeather'' (registeredFunctions (ex_ai fc_paris))
     = Some \<lparr>name = ''getWeather'', fullFunction = getWeather, schema = Zod city_schema,
              jsonSchema = JObj [(''type'', JStr ''object'')]\<rparr>
   \<and> listFunctions (ex_ai fc_paris) = Inr []
   \<and> map_option (\<lambda>p. trace (snd p)) (chat ex_env (ex_ai fc_paris) ex_opts ex_state)
       = Some [Sent \<lparr>req_model = ''gpt-3.5-turbo-0613'',
                     req_messages =
                       [\<lparr>msg_role = Role_system, msg_name = None,
                         msg_content = Some ''You are a helpful chatbot. You are helping a user with a task.''\<rparr>,
                        \<lparr>msg_role = Role_user, msg_name = None,
                         msg_content = Some ''weather in Paris?''\<rparr>],
                     req_functions = [], req_function_call = None\<rparr>,
               Called ''getWeather'' (Some (JObj [(''city'', JStr ''Paris'')])),
               Pushed 0 tempC_message,
               Waited (Finite 50)]"
proof (intro conjI)
  show "Map_get ''getWeather'' (registeredFunctions (ex_ai fc_paris))
     = Some \<lparr>name = ''getWeather'', fullFunction = getWeather, schema = Zod city_schema,
              jsonSchema = JObj [(''type'', JStr ''object'')]\<rparr>"
    by (simp add: Map_get_def ex_ai_def addFunction_def SmolAI_new_def Map_new_def Map_set_def
        ex_env_def getWeather_def Let_def)
  show "listFunctions (ex_ai fc_paris) = Inr []"
    by (rule listFunctions_ex_ai)
  show "map_option (\<lambda>p. trace (snd p)) (chat ex_env (ex_ai fc_paris) ex_opts ex_state)
       = Some [Sent \<lparr>req_model = ''gpt-3.5-turbo-0613'',
                     req_messages =
                       [\<lparr>msg_role = Role_system, msg_name = None,
                         msg_content = Some ''You are a helpful chatbot. You are helping a user with a task.''\<rparr>,
                        \<lparr>msg_role = Role_user, msg_name = None,
                         msg_content = Some ''weather in Paris?''\<rparr>],
                     req_functions = [], req_function_call = None\<rparr>,
               Called ''getWeather'' (Some (JObj [(''city'', JStr ''Paris'')])),
               Pushed 0 tempC_message,
               Waited (Finite 50)]"
    apply (simp add: chat_def listFunctions_ex_ai)
    apply (subst chat_loop.simps)
    apply (simp add: iteration_def invoke_def build_request_def parse_args_def getFunction_def
        Map_get_def push_def forced_name_def backoff_half coerce_def ex_ai_def ex_env_def
        ex_opts_def ex_state_def getWeather_def answering_def city_schema_def SmolAI_new_def
        addFunction_def Map_new_def Map_set_def fc_paris_def tempC_message_def Let_def)
    done
qed

subsection \<open>After arguments that are not valid\<close>

text \<open>
  Claim C2. \<open>getWeather\<close> is registered with the structured schema and the provider
  selects it with \<open>{"city":5}\<close>: validation fails, the corrective message is pushed,
  and in the same pass \<open>getWeather\<close> is called, with \<open>undefined\<close>.
\<close>

theorem callable_invoked_after_failed_validation:
  "parse_args ex_env
     \<lparr>name = ''getWeather'', fullFunction = getWeather, schema = Zod city_schema,
      jsonSchema = JObj [(''type'', JStr ''object'')]\<rparr> ''{\"city\":5}''
   = Inl ''Expected string''
   \<and> trace (snd (iteration ex_env (ex_ai fc_five) ex_opts [] False ex_state))
     = [Sent (build_request (ex_ai fc_five) ex_opts [] ex_state),
        Pushed 0 (invalid_arguments ''Expected string''),
        Called ''getWeather'' None,
        Pushed 0 tempC_message,
        Waited (Finite 50)]"
  by (simp add: iteration_def invoke_def parse_args_def getFunction_def
        Map_get_def push_def backoff_half ex_ai_def ex_env_def
        ex_opts_def ex_state_def getWeather_def answering_def city_schema_def SmolAI_new_def
        addFunction_def Map_new_def Map_set_def fc_five_def tempC_message_def Let_def)

text \<open>
  Claim C8. The provider selects \<open>getWeather\<close> with text that is not JSON. The pass
  calls \<open>getWeather\<close>, which returns, and reaches the timer; the caller's array has
  grown by two messages, the corrective one and the function message.
\<close>

theorem two_messages_after_failed_validation:
  "fst (iteration ex_env (ex_ai fc_garbled) ex_opts [] False ex_state)
   = Inr (\<lparr>data = \<lparr>choices = [\<lparr>ch_message = \<lparr>rm_role = Role_assistant, rm_content = None,
              rm_function_call = fc_garbled\<rparr>\<rparr>]\<rparr>\<rparr>, True)
   \<and> waits (trace (snd (iteration ex_env (ex_ai fc_garbled) ex_opts [] False ex_state))) = [Finite 50]
   \<and> arrays (snd (iteration ex_env (ex_ai fc_garbled) ex_opts [] False ex_state)) (messages ex_opts)
     = arrays ex_state (messages ex_opts)
       @ [invalid_arguments ''Unexpected token'',
          Message \<lparr>msg_role = Role_function, msg_name = Some ''getWeather'',
                   msg_content = Some ''{\"tempC\":18}''\<rparr>]"
  by (simp add: iteration_def invoke_def parse_args_def getFunction_def
        Map_get_def push_def backoff_half ex_ai_def ex_env_def
        ex_opts_def ex_state_def getWeather_def answering_def city_schema_def SmolAI_new_def
        addFunction_def Map_new_def Map_set_def fc_garbled_def Let_def)

text \<open>
  When the arguments are valid and the function returns, the pass pushes the function
  message and nothing else.
\<close>

lemma valid_arguments_push_one:
  assumes "createChatCompletion (aisdk ai) (build_request ai opts fns s) (world s) = (Inr c, w1)"
    and "choices (data c) = ch # cs"
    and "rm_function_call (ch_message ch) = Some fc"
    and "Map_get (fc_name fc) (registeredFunctions ai) = Some sel"
    and "parse_args env sel (fc_arguments fc) = Inr args"
    and "fn_call (fullFunction sel) args w1 = (Inr results, w2)"
    and "iteration env ai opts fns sr s = (out, s')"
  shows "arrays s' = (arrays s)(messages opts := arrays s (messages opts)
           @ [Message \<lparr>msg_role = Role_function, msg_name = Some (name sel),
                       msg_content = JSON_stringify env results\<rparr>])"
  using assms
  by (auto simp: iteration_def invoke_def getFunction_def push_def Let_def split: prod.splits)

end
